theory Spec2Isabelle
  imports Complex_Main
begin

section \<open>The MA5-support backtest engine (core/backtest_runner_MA5.py)\<close>

text \<open>
  The engine replays one symbol's daily bars: a trigger scanner, an entry resolver, an exit
  resolver and a trade recorder with a re-arm gate, all inside the single loop of
  \<open>run_backtest\<close>; the aggregation functions build the summaries from the trade records.

  Numbers: the source computes on 64-bit floating point values taken from a pandas frame.
  The embedding idealises them as real numbers, so every field is a finite number (no NaN, no
  infinity) and arithmetic is exact; dates are day numbers. Python's \<open>None\<close> is \<open>None\<close> of an
  option type. The divisors of the source (MA5, MA10, the previous close, the entry price)
  are prices and are taken to be nonzero: numpy answers a division by zero with an infinity
  or NaN, which the embedding does not represent.
\<close>

subsection \<open>Data model\<close>

text \<open>
  One row of the input frame. Columns of the source: \<open>date\<close> is the date column,
  \<open>open_price\<close>, \<open>high\<close>, \<open>low\<close>, \<open>close_price\<close> the four prices, \<open>traded_value\<close> the traded
  value, \<open>pct_change\<close> the percent change against the previous close, \<open>ma5\<close>, \<open>ma10\<close>, \<open>ma20\<close>
  the moving averages. The two net-buy columns are optional in the frame: \<open>None\<close> stands for
  a missing column, which \<open>row.get(column, 0)\<close> reads as 0.
\<close>

record bar =
  date :: int
  open_price :: real
  high :: real
  low :: real
  close_price :: real
  traded_value :: real
  pct_change :: real
  ma5 :: real
  ma10 :: real
  ma20 :: real
  foreign_net :: "real option"
  institution_net :: "real option"

text \<open>
  The six thresholds after the conversion at the head of \<open>run_backtest\<close>: an empty string
  becomes \<open>None\<close> (disabled), the rates are converted with \<open>float\<close>, the others with \<open>int\<close>.
\<close>

record thresholds =
  min_rate :: "real option"
  max_rate :: "real option"
  min_volume :: "int option"
  max_volume :: "int option"
  min_foreign :: "int option"
  min_institution :: "int option"

datatype outcome = Win | Loss

text \<open>
  The fields of a result row that the summaries and the properties below read. The identity
  columns, the note, the slopes, the alignment flags and the echo of the parameters are left out.
\<close>

record trade =
  trigger_date :: int
  entry_date :: int
  exit_date :: int
  entry_price :: real
  exit_price :: real
  return_pct :: real
  days_held :: nat
  target_price :: real
  outcome :: outcome
  max_gain_pct :: real
  max_drawdown :: real
  spread_ma5_10 :: real
  risk_to_reward :: "real option"

subsection \<open>Helper functions\<close>

text \<open>
  \<open>round(x, n)\<close>: the nearest multiple of \<open>10^-n\<close>, a tie going to the even neighbour. On
  real numbers this is what both Python's and numpy's rounding compute.
\<close>

definition rint :: "real \<Rightarrow> int" where
  "rint x =
     (let f = \<lfloor>x\<rfloor>; d = x - of_int f
      in if d < 1 / 2 then f else if d > 1 / 2 then f + 1 else if even f then f else f + 1)"

definition py_round :: "real \<Rightarrow> nat \<Rightarrow> real" where
  "py_round x n = of_int (rint (x * 10 ^ n)) / 10 ^ n"

definition calculate_target_price :: "real \<Rightarrow> real \<Rightarrow> real \<Rightarrow> real" where
  "calculate_target_price entryprice m5 m10 =
     (let spread_pct = (m5 - m10) / m10 in py_round (entryprice * (1 + spread_pct)) 2)"

definition calculate_return :: "real \<Rightarrow> real \<Rightarrow> real" where
  "calculate_return entryprice exitprice = py_round ((exitprice - entryprice) / entryprice * 100) 2"

definition is_valid_entry :: "bar \<Rightarrow> bool" where
  "is_valid_entry row \<longleftrightarrow> ma5 row > ma10 row \<and> ma10 row > ma20 row"

subsection \<open>Trigger scanner\<close>

text \<open>The first six conjuncts of the trigger condition: a disabled threshold is skipped.\<close>

definition threshold_conditions :: "thresholds \<Rightarrow> bar \<Rightarrow> bool" where
  "threshold_conditions th row \<longleftrightarrow>
     (case min_rate th of None \<Rightarrow> True | Some m \<Rightarrow> pct_change row > m) \<and>
     (case max_rate th of None \<Rightarrow> True | Some m \<Rightarrow> pct_change row < m) \<and>
     (case min_volume th of None \<Rightarrow> True | Some m \<Rightarrow> traded_value row > of_int m) \<and>
     (case max_volume th of None \<Rightarrow> True | Some m \<Rightarrow> traded_value row < of_int m) \<and>
     (case min_foreign th of None \<Rightarrow> True
      | Some m \<Rightarrow> (case foreign_net row of None \<Rightarrow> 0 | Some v \<Rightarrow> v) > of_int m) \<and>
     (case min_institution th of None \<Rightarrow> True
      | Some m \<Rightarrow> (case institution_net row of None \<Rightarrow> 0 | Some v \<Rightarrow> v) > of_int m)"

text \<open>
  The flat-day loop over \<open>past_20\<close>: the first argument is the counter \<open>consecutive_flats\<close>,
  the result is \<open>has_3_or_more_consecutive_zeros\<close>.
\<close>

fun flat_scan :: "nat \<Rightarrow> real list \<Rightarrow> bool" where
  "flat_scan consecutive_flats [] = False"
| "flat_scan consecutive_flats (r # rs) =
     (if r = 0 then (if consecutive_flats + 1 \<ge> 3 then True else flat_scan (consecutive_flats + 1) rs)
      else flat_scan 0 rs)"

text \<open>The slice \<open>df.loc[max(0, idx - 20) : idx - 1]\<close> of the percent changes (both ends included).\<close>

definition past_20 :: "bar list \<Rightarrow> nat \<Rightarrow> real list" where
  "past_20 df idx = map pct_change (drop (idx - 20) (take idx df))"

text \<open>
  The trigger test of the bar at \<open>idx\<close> (with \<open>0 < idx < length df\<close>): true when control
  reaches the assignment of \<open>trigger_date\<close>; every \<open>continue\<close> of the source is \<open>False\<close>.
\<close>

definition is_trigger :: "bar list \<Rightarrow> thresholds \<Rightarrow> nat \<Rightarrow> bool" where
  "is_trigger df th idx =
     (let row = df ! idx; prev_row = df ! (idx - 1)
      in if threshold_conditions th row \<and> pct_change prev_row > - 10 \<and>
            close_price row \<ge> ma5 row * 1.05
         then
           if (ma20 row - ma10 row) / ma10 row * 100 > 4 then False
           else if (ma10 row - ma5 row) / ma5 row * 100 > 5 then False
           else if (open_price row - close_price prev_row) / close_price prev_row * 100 < - 10
             then False
           else if flat_scan 0 (past_20 df idx) then False
           else True
         else False)"

subsection \<open>Entry resolver\<close>

definition crossed_down_ma5 :: "bar \<Rightarrow> bool" where
  "crossed_down_ma5 row_forward =
     list_ex (\<lambda>p. p < ma5 row_forward)
       [low row_forward, high row_forward, open_price row_forward, close_price row_forward]"

text \<open>
  What the loop does on a bar that crossed down MA5, up to its \<open>break\<close>: \<open>None\<close> when the
  entry is abandoned, the entry price otherwise.
\<close>

definition resolve_entry :: "bar \<Rightarrow> real option" where
  "resolve_entry row_forward =
     (if open_price row_forward < ma10 row_forward then None
      else
        let entryprice =
              (if open_price row_forward < ma5 row_forward then open_price row_forward
               else if low row_forward \<le> ma5 row_forward \<and> ma5 row_forward \<le> high row_forward
                 then ma5 row_forward
               else open_price row_forward);
            spread = (ma5 row_forward - ma10 row_forward) / ma10 row_forward * 100
        in if spread < 3 then None
           else if \<not> is_valid_entry row_forward then None
           else Some entryprice)"

text \<open>The loop \<open>for forward_idx in range(idx + 1, len(df))\<close> over the indexed rows.\<close>

fun entry_scan :: "(nat \<times> bar) list \<Rightarrow> (nat \<times> real) option" where
  "entry_scan [] = None"
| "entry_scan ((forward_idx, row_forward) # rest) =
     (if crossed_down_ma5 row_forward
      then (case resolve_entry row_forward of None \<Rightarrow> None
            | Some entryprice \<Rightarrow> Some (forward_idx, entryprice))
      else entry_scan rest)"

text \<open>The rows of \<open>range(i, len(df))\<close> with their indices.\<close>

definition rows_from :: "bar list \<Rightarrow> nat \<Rightarrow> (nat \<times> bar) list" where
  "rows_from df i = enumerate i (drop i df)"

definition find_entry :: "bar list \<Rightarrow> nat \<Rightarrow> (nat \<times> real) option" where
  "find_entry df idx = entry_scan (rows_from df (idx + 1))"

subsection \<open>Exit resolver\<close>

text \<open>
  The loop \<open>for exit_idx in range(entry_idx, len(df))\<close>, with the running \<open>max_drawdown\<close> as
  an argument. The result is the exit index, the exit price, the outcome and the drawdown;
  \<open>None\<close> when the series ends with no exit.
\<close>

fun exit_scan ::
  "nat \<Rightarrow> real \<Rightarrow> real \<Rightarrow> real \<Rightarrow> (nat \<times> bar) list \<Rightarrow> (nat \<times> real \<times> outcome \<times> real) option"
where
  "exit_scan entry_idx entryprice target maxdd [] = None"
| "exit_scan entry_idx entryprice target maxdd ((exit_idx, row_exit) # rest) =
     (let opened_below_ma10 = open_price row_exit < ma10 row_exit;
          drawdown = (low row_exit - entryprice) / entryprice * 100;
          maxdd' = min maxdd drawdown;
          hit_target = high row_exit \<ge> target;
          hit_ma10 = (low row_exit \<le> ma10 row_exit \<or> opened_below_ma10)
      in if hit_target \<and> hit_ma10
         then Some (exit_idx,
                    (if opened_below_ma10 then open_price row_exit else ma10 row_exit),
                    Loss, maxdd')
         else if exit_idx = entry_idx \<and> hit_target \<and> \<not> hit_ma10
           then exit_scan entry_idx entryprice target maxdd' rest
         else if hit_target then Some (exit_idx, target, Win, maxdd')
         else if hit_ma10
           then Some (exit_idx,
                      (if opened_below_ma10 then open_price row_exit else ma10 row_exit),
                      Loss, maxdd')
         else exit_scan entry_idx entryprice target maxdd' rest)"

definition find_exit ::
  "bar list \<Rightarrow> nat \<Rightarrow> real \<Rightarrow> real \<Rightarrow> (nat \<times> real \<times> outcome \<times> real) option"
where
  "find_exit df entry_idx entryprice target =
     exit_scan entry_idx entryprice target 0 (rows_from df entry_idx)"

subsection \<open>Metrics and the trade record\<close>

text \<open>The loop that collects \<open>max_high_until_ma10\<close> over the rows after the entry.\<close>

fun max_high_scan :: "real option \<Rightarrow> (nat \<times> bar) list \<Rightarrow> real option" where
  "max_high_scan max_high_until_ma10 [] = max_high_until_ma10"
| "max_high_scan max_high_until_ma10 ((i, row_i) # rest) =
     (if low row_i \<le> ma10 row_i then max_high_until_ma10
      else if open_price row_i \<ge> ma10 row_i
        then max_high_scan
               (Some (case max_high_until_ma10 of None \<Rightarrow> high row_i
                      | Some m \<Rightarrow> max m (high row_i))) rest
      else max_high_scan max_high_until_ma10 rest)"

definition custom_max_gain_pct :: "bar list \<Rightarrow> nat \<Rightarrow> real \<Rightarrow> int \<Rightarrow> int \<Rightarrow> real" where
  "custom_max_gain_pct df entry_idx entryprice entrydate exitdate =
     (case (if exitdate \<noteq> entrydate then max_high_scan None (rows_from df (entry_idx + 1))
            else None) of
        Some m \<Rightarrow> py_round ((m - entryprice) / entryprice * 100) 2
      | None \<Rightarrow> 0)"

text \<open>\<open>round(return_pct / spread_ma5_10, 4) if spread_ma5_10 else None\<close>\<close>

definition risk_to_reward_of :: "real \<Rightarrow> real \<Rightarrow> real option" where
  "risk_to_reward_of returnpct spread =
     (if spread \<noteq> 0 then Some (py_round (returnpct / spread) 4) else None)"

text \<open>The result row appended for a trigger at \<open>idx\<close>, an entry and an exit.\<close>

definition build_trade ::
  "bar list \<Rightarrow> nat \<Rightarrow> nat \<Rightarrow> real \<Rightarrow> real \<Rightarrow> real \<Rightarrow> nat \<Rightarrow> real \<Rightarrow> outcome \<Rightarrow> real \<Rightarrow> trade"
where
  "build_trade df idx entry_idx entryprice spread target exit_idx exitprice oc maxdd =
     (let entrydate = date (df ! entry_idx);
          exitdate = date (df ! exit_idx);
          returnpct = calculate_return entryprice exitprice
      in \<lparr>trigger_date = date (df ! idx),
          entry_date = entrydate,
          exit_date = exitdate,
          entry_price = entryprice,
          exit_price = exitprice,
          return_pct = returnpct,
          days_held = length (filter (\<lambda>b. entrydate < date b \<and> date b \<le> exitdate) df),
          target_price = target,
          outcome = oc,
          max_gain_pct = custom_max_gain_pct df entry_idx entryprice entrydate exitdate,
          max_drawdown = py_round maxdd 2,
          spread_ma5_10 = spread,
          risk_to_reward = risk_to_reward_of returnpct spread\<rparr>)"

text \<open>
  The body of the main loop from the trigger test on, for the bar at \<open>idx\<close>: \<open>None\<close> when one
  of its \<open>continue\<close> statements is reached, the appended result row otherwise.
\<close>

definition trade_at :: "bar list \<Rightarrow> thresholds \<Rightarrow> nat \<Rightarrow> trade option" where
  "trade_at df th idx =
     (if \<not> is_trigger df th idx then None
      else case find_entry df idx of
        None \<Rightarrow> None
      | Some (entry_idx, entryprice) \<Rightarrow>
          (let entry_row = df ! entry_idx;
               spread = py_round ((ma5 entry_row - ma10 entry_row) / ma10 entry_row * 100) 2;
               target = calculate_target_price entryprice (ma5 entry_row) (ma10 entry_row)
           in if \<not> is_valid_entry entry_row then None
              else map_option
                     (\<lambda>(exit_idx, exitprice, oc, maxdd).
                        build_trade df idx entry_idx entryprice spread target exit_idx exitprice oc maxdd)
                     (find_exit df entry_idx entryprice target)))"

subsection \<open>The main loop and the re-arm gate\<close>

text \<open>
  One iteration of \<open>for idx, row in df.iterrows()\<close>. The state is the re-arm gate
  \<open>waiting_for_ma20_dip\<close> and the result list. The variable \<open>last_exit_idx\<close> of the source is
  assigned after each trade and never read, so it is not part of the state.
\<close>

definition step ::
  "bar list \<Rightarrow> thresholds \<Rightarrow> int option \<Rightarrow> bool \<times> trade list \<Rightarrow> nat \<Rightarrow> bool \<times> trade list"
where
  "step df th manual_trigger_date st idx =
     (let waiting_for_ma20_dip = fst st; results = snd st; row = df ! idx
      in if idx = 0 then st
         else if (case manual_trigger_date of None \<Rightarrow> False | Some d \<Rightarrow> date row \<noteq> d) then st
         else if waiting_for_ma20_dip \<and> \<not> close_price row < ma20 row then st
         else case trade_at df th idx of
                None \<Rightarrow> (False, results)
              | Some r \<Rightarrow> (True, results @ [r]))"

definition scan :: "bar list \<Rightarrow> thresholds \<Rightarrow> int option \<Rightarrow> nat \<Rightarrow> bool \<times> trade list" where
  "scan df th manual_trigger_date n = foldl (step df th manual_trigger_date) (False, []) [0..<n]"

text \<open>
  \<open>run_backtest\<close> sorts the frame by date and runs the loop over all of it. The order
  that \<open>sort_values\<close> gives to rows of equal date is not fixed by pandas; the properties
  that depend on the order are stated for series without duplicate dates.
\<close>

definition run_backtest :: "bar list \<Rightarrow> thresholds \<Rightarrow> int option \<Rightarrow> trade list" where
  "run_backtest df th manual_trigger_date =
     (let sorted_df = sort_key date df
      in snd (scan sorted_df th manual_trigger_date (length sorted_df)))"

section \<open>The daily summary\<close>

text \<open>
  \<open>generate_daily_summary\<close> exists twice: in core/backtest_runner_MA5.py, which writes the
  result workbook, and in the summary tool (summary_gui.py), which rebuilds the summaries from
  a result file. A summary table is a list of labelled rows in the order of its index; a cell
  is a number or NaN (\<open>None\<close>). The columns are, in order: return sum, number of trades, mean
  max gain, mean max drawdown, mean spread, risk/reward sum, risk/reward mean, stocks bought,
  stocks sold, stocks held.
\<close>

datatype py_error = ValueError

datatype row_label = Day int | Total_row | Average_row

type_synonym summary = "(row_label \<times> real option list) list"

text \<open>Sum and mean of a column as pandas computes them: NaN cells are skipped.\<close>

definition present :: "real option list \<Rightarrow> real list" where
  "present cells = concat (map (\<lambda>c. case c of None \<Rightarrow> [] | Some v \<Rightarrow> [v]) cells)"

definition nan_sum :: "real option list \<Rightarrow> real" where
  "nan_sum cells = sum_list (present cells)"

definition nan_mean :: "real option list \<Rightarrow> real option" where
  "nan_mean cells =
     (let vs = present cells
      in if vs = [] then None else Some (sum_list vs / real (length vs)))"

definition min_date :: "int list \<Rightarrow> int" where
  "min_date ds = fold min (tl ds) (hd ds)"

definition max_date :: "int list \<Rightarrow> int" where
  "max_date ds = fold max (tl ds) (hd ds)"

text \<open>The eight statistics of the group of rows entered on day \<open>d\<close>.\<close>

definition grouped_stats :: "trade list \<Rightarrow> int \<Rightarrow> real option list" where
  "grouped_stats df d =
     (let g = filter (\<lambda>r. entry_date r = d) df
      in [Some (sum_list (map return_pct g)),
          Some (real (length g)),
          nan_mean (map (\<lambda>r. Some (max_gain_pct r)) g),
          nan_mean (map (\<lambda>r. Some (max_drawdown r)) g),
          nan_mean (map (\<lambda>r. Some (spread_ma5_10 r)) g),
          Some (nan_sum (map risk_to_reward g)),
          nan_mean (map risk_to_reward g),
          Some (real (length g))])"

definition exit_counts :: "trade list \<Rightarrow> int \<Rightarrow> nat" where
  "exit_counts df d = length (filter (\<lambda>r. exit_date r = d) df)"

definition round_cells :: "real option list \<Rightarrow> real option list" where
  "round_cells cells = map (map_option (\<lambda>v. py_round v 2)) cells"

text \<open>The rows \<open>Total\<close> and \<open>Average\<close>, computed over the columns and appended.\<close>

definition with_total_and_average :: "summary \<Rightarrow> nat \<Rightarrow> summary" where
  "with_total_and_average rows ncols =
     rows @
     [(Total_row, map (\<lambda>k. Some (nan_sum (map (\<lambda>row. snd row ! k) rows))) [0..<ncols]),
      (Average_row, map (\<lambda>k. nan_mean (map (\<lambda>row. snd row ! k) rows)) [0..<ncols])]"

text \<open>
  The version of core/backtest_runner_MA5.py. \<open>held_counts\<close> starts at 0 on every day of
  \<open>all_dates\<close> and each row adds 1 on the days from its entry to its exit; the table is
  indexed by the groups of \<open>groupby('entry_date')\<close>, in ascending order. An empty frame has no
  minimum date and \<open>pd.date_range\<close> raises.
\<close>

definition held_counts_loop :: "trade list \<Rightarrow> int list \<Rightarrow> (int \<times> nat) list" where
  "held_counts_loop df all_dates =
     fold (\<lambda>row hc. map (\<lambda>(d, c). if entry_date row \<le> d \<and> d \<le> exit_date row
                                   then (d, c + 1) else (d, c)) hc)
       df (map (\<lambda>d. (d, 0)) all_dates)"

definition generate_daily_summary :: "trade list \<Rightarrow> py_error + summary" where
  "generate_daily_summary df =
     (if df = [] then Inl ValueError
      else
        let all_dates = [min_date (map entry_date df)..max_date (map exit_date df)];
            held_counts = held_counts_loop df all_dates;
            index = sort (remdups (map entry_date df));
            rows = map (\<lambda>d. (Day d,
                      round_cells
                        (grouped_stats df d @
                         [Some (real (exit_counts df d)),
                          Some (case map_of held_counts d of None \<Rightarrow> 0 | Some c \<Rightarrow> real c)])))
                     index
        in Inr (with_total_and_average rows 10))"

text \<open>
  The version of the summary tool: the statistics are reindexed over \<open>full_dates\<close>, every
  calendar day from the earliest entry to the latest exit, and missing cells are filled with 0.
\<close>

definition generate_daily_summary_gui :: "trade list \<Rightarrow> py_error + summary" where
  "generate_daily_summary_gui df =
     (if df = [] then Inl ValueError
      else
        let full_dates = [min_date (map entry_date df)..max_date (map exit_date df)];
            held_counts =
              (\<lambda>d. length (filter (\<lambda>r. entry_date r \<le> d \<and> exit_date r \<ge> d) df));
            rows = map (\<lambda>d. (Day d,
                      round_cells
                        ((if d \<in> set (map entry_date df)
                          then map (\<lambda>c. Some (case c of None \<Rightarrow> 0 | Some v \<Rightarrow> v))
                                 (grouped_stats df d)
                          else replicate 8 (Some 0)) @
                         [Some (real (exit_counts df d)), Some (real (held_counts d))])))
                     full_dates
        in Inr (with_total_and_average rows 10))"

section \<open>The specification's wording\<close>

text \<open>
  The entry rule as the specification words it: the first bar after the trigger with one of
  low, high, open, close below its MA5 is the only candidate; it is abandoned when its open is
  below MA10, when the MA5-MA10 spread is under 3 percent or when MA5 > MA10 > MA20 fails.
\<close>

definition below_ma5 :: "bar \<Rightarrow> bool" where
  "below_ma5 b \<longleftrightarrow> low b < ma5 b \<or> high b < ma5 b \<or> open_price b < ma5 b \<or> close_price b < ma5 b"

definition first_candidate :: "bar list \<Rightarrow> nat \<Rightarrow> nat option" where
  "first_candidate df idx = find (\<lambda>k. below_ma5 (df ! k)) [idx + 1..<length df]"

definition entry_by_spec :: "bar list \<Rightarrow> nat \<Rightarrow> (nat \<times> real) option" where
  "entry_by_spec df idx =
     (case first_candidate df idx of
        None \<Rightarrow> None
      | Some k \<Rightarrow>
          (let b = df ! k
           in if open_price b < ma10 b then None
              else if (ma5 b - ma10 b) / ma10 b * 100 < 3 \<or> \<not> (ma5 b > ma10 b \<and> ma10 b > ma20 b)
                then None
              else Some (k, if open_price b < ma5 b then open_price b
                            else if low b \<le> ma5 b \<and> ma5 b \<le> high b then ma5 b
                            else open_price b)))"

text \<open>
  A run of three or more consecutive zero percent changes, and the trigger rule as the
  specification words it; the bars before the bar at \<open>idx\<close> are those of \<open>past_20\<close>.
\<close>

definition has_zero_run :: "real list \<Rightarrow> bool" where
  "has_zero_run xs \<longleftrightarrow>
     (\<exists>i \<in> {0..<length xs - 2}. xs ! i = 0 \<and> xs ! (i + 1) = 0 \<and> xs ! (i + 2) = 0)"


text \<open>The same rule with the previous bar's percent change strictly above -10.\<close>

definition trigger_by_spec_strict :: "bar list \<Rightarrow> thresholds \<Rightarrow> nat \<Rightarrow> bool" where
  "trigger_by_spec_strict df th idx \<longleftrightarrow>
     (let row = df ! idx; prev_row = df ! (idx - 1)
      in threshold_conditions th row \<and>
         pct_change prev_row > - 10 \<and>
         close_price row \<ge> ma5 row * 1.05 \<and>
         (ma20 row - ma10 row) / ma10 row * 100 \<le> 4 \<and>
         (ma10 row - ma5 row) / ma5 row * 100 \<le> 5 \<and>
         (open_price row - close_price prev_row) / close_price prev_row * 100 \<ge> - 10 \<and>
         \<not> has_zero_run (past_20 df idx))"

text \<open>
  The re-arm gate. Two trade records overlap when their windows from trigger date to exit
  date meet. A dip is a bar whose close is below its MA20: strictly between two dates, or
  after the first date and up to and including the second.
\<close>

definition windows_overlap :: "trade \<Rightarrow> trade \<Rightarrow> bool" where
  "windows_overlap r1 r2 \<longleftrightarrow>
     trigger_date r1 \<le> exit_date r2 \<and> trigger_date r2 \<le> exit_date r1"

definition ma20_dip_strictly_between :: "bar list \<Rightarrow> int \<Rightarrow> int \<Rightarrow> bool" where
  "ma20_dip_strictly_between df d1 d2 \<longleftrightarrow>
     (\<exists>b \<in> set df. d1 < date b \<and> date b < d2 \<and> close_price b < ma20 b)"

definition ma20_dip_after_upto :: "bar list \<Rightarrow> int \<Rightarrow> int \<Rightarrow> bool" where
  "ma20_dip_after_upto df d1 d2 \<longleftrightarrow>
     (\<exists>b \<in> set df. d1 < date b \<and> date b \<le> d2 \<and> close_price b < ma20 b)"

text \<open>
  The invariant of the main loop after the bars below \<open>n\<close>: every record was triggered by
  a bar below \<open>n\<close>; between the triggers of any two records lies a dip; and when the gate is
  open after a trade, a dip later than every recorded trigger has been seen.
\<close>

definition gate_invariant :: "bar list \<Rightarrow> nat \<Rightarrow> bool \<times> trade list \<Rightarrow> bool" where
  "gate_invariant df n st \<longleftrightarrow>
     (\<forall>r \<in> set (snd st). \<exists>t < n. trigger_date r = date (df ! t)) \<and>
     sorted_wrt (\<lambda>r1 r2. ma20_dip_after_upto df (trigger_date r1) (trigger_date r2)) (snd st) \<and>
     (fst st \<or> snd st = [] \<or>
      (\<exists>j < n. close_price (df ! j) < ma20 (df ! j) \<and>
         (\<forall>r \<in> set (snd st). trigger_date r < date (df ! j))))"

section \<open>Example series\<close>

text \<open>A bar with no traded value and without the two net-buy columns.\<close>

definition example_bar ::
  "int \<Rightarrow> real \<Rightarrow> real \<Rightarrow> real \<Rightarrow> real \<Rightarrow> real \<Rightarrow> real \<Rightarrow> real \<Rightarrow> real \<Rightarrow> bar"
where
  "example_bar d op hi lo cl pct m5 m10 m20 =
     \<lparr>date = d, open_price = op, high = hi, low = lo, close_price = cl, traded_value = 0,
      pct_change = pct, ma5 = m5, ma10 = m10, ma20 = m20,
      foreign_net = None, institution_net = None\<rparr>"

definition no_thresholds :: thresholds where
  "no_thresholds =
     \<lparr>min_rate = None, max_rate = None, min_volume = None, max_volume = None,
      min_foreign = None, min_institution = None\<rparr>"

text \<open>
  A trigger on day 2, an entry at MA5 = 103 on day 3 (target 106.09), a win on day 4.
\<close>

definition series_win :: "bar list" where
  "series_win =
     [example_bar 1 99 101 98 100 1 99 98 97,
      example_bar 2 101 111 100 110 10 100 98 95,
      example_bar 3 104 105 102 104 (- 5) 103 100 95,
      example_bar 4 105 107 104 106 2 104 101 96]"

text \<open>The same trigger and entry; on day 4 the high reaches the target and the low breaches MA10.\<close>

definition series_both :: "bar list" where
  "series_both =
     [example_bar 1 99 101 98 100 1 99 98 97,
      example_bar 2 101 111 100 110 10 100 98 95,
      example_bar 3 104 105 102 104 (- 5) 103 100 95,
      example_bar 4 105 107 100 106 2 104 101 96]"


text \<open>The same trigger and entry; on day 4 the low breaches MA10 = 101 below the target.\<close>

definition series_loss :: "bar list" where
  "series_loss =
     [example_bar 1 99 101 98 100 1 99 98 97,
      example_bar 2 101 111 100 110 10 100 98 95,
      example_bar 3 104 105 102 104 (- 5) 103 100 95,
      example_bar 4 102 103 (201 / 2) 102 2 104 101 96]"

definition trade_win :: trade where
  "trade_win =
     \<lparr>trigger_date = 2, entry_date = 3, exit_date = 4, entry_price = 103,
      exit_price = 10609 / 100, return_pct = 3, days_held = 1, target_price = 10609 / 100,
      outcome = Win, max_gain_pct = 97 / 25, max_drawdown = - (97 / 100), spread_ma5_10 = 3,
      risk_to_reward = Some 1\<rparr>"

definition trade_loss :: trade where
  "trade_loss =
     \<lparr>trigger_date = 2, entry_date = 3, exit_date = 4, entry_price = 103,
      exit_price = 101, return_pct = - (97 / 50), days_held = 1, target_price = 10609 / 100,
      outcome = Loss, max_gain_pct = 0, max_drawdown = - (243 / 100), spread_ma5_10 = 3,
      risk_to_reward = Some (- (6467 / 10000))\<rparr>"

text \<open>
  Triggers on day 2 and on day 3; the close of day 3 is below its MA20. Both triggers enter
  on day 4 and exit on day 5.
\<close>

definition series_overlap :: "bar list" where
  "series_overlap =
     [example_bar 1 99 101 98 100 1 99 98 97,
      example_bar 2 101 111 100 110 10 100 98 95,
      example_bar 3 104 106 103 105 (- 4) 100 103 106,
      example_bar 4 104 105 102 104 (- 1) 103 100 95,
      example_bar 5 105 107 104 106 2 104 101 96]"

definition trade_overlap :: "int \<Rightarrow> trade" where
  "trade_overlap d =
     \<lparr>trigger_date = d, entry_date = 4, exit_date = 5, entry_price = 103,
      exit_price = 10609 / 100, return_pct = 3, days_held = 1, target_price = 10609 / 100,
      outcome = Win, max_gain_pct = 97 / 25, max_drawdown = - (97 / 100), spread_ma5_10 = 3,
      risk_to_reward = Some 1\<rparr>"

text \<open>One trade entered on day 3 and held until day 5.\<close>

definition trade_held :: trade where
  "trade_held = trade_win\<lparr>exit_date := 5, days_held := 2\<rparr>"

text \<open>
  As \<open>series_win\<close>, but the high of the entry bar (day 3) already reaches the target
  106.09 while its low and open stay above MA10: a target-only hit on the entry bar.
\<close>

definition series_skip :: "bar list" where
  "series_skip =
     [example_bar 1 99 101 98 100 1 99 98 97,
      example_bar 2 101 111 100 110 10 100 98 95,
      example_bar 3 104 107 102 104 (- 5) 103 100 95,
      example_bar 4 105 107 104 106 2 104 101 96]"

section \<open>Verification\<close>

subsection \<open>The exit loop\<close>

lemma exit_scan_both_hit:
  assumes "n < length xs"
    and "high (xs ! n) \<ge> target"
    and "low (xs ! n) \<le> ma10 (xs ! n) \<or> open_price (xs ! n) < ma10 (xs ! n)"
  shows "\<exists>x xp oc mdd. exit_scan e ep target m (enumerate i xs) = Some (x, xp, oc, mdd) \<and>
           i \<le> x \<and> x \<le> i + n \<and>
           (x = i + n \<longrightarrow> oc = Loss \<and>
              xp = (if open_price (xs ! n) < ma10 (xs ! n) then open_price (xs ! n)
                    else ma10 (xs ! n)))"
  using assms
proof (induction xs arbitrary: i n m)
  case Nil
  then show ?case by simp
next
  case (Cons r rest)
  show ?case
  proof (cases n)
    case 0
    with Cons.prems show ?thesis by (simp add: Let_def)
  next
    case (Suc n')
    with Cons.prems have n': "n' < length rest" "high (rest ! n') \<ge> target"
      "low (rest ! n') \<le> ma10 (rest ! n') \<or> open_price (rest ! n') < ma10 (rest ! n')"
      by simp_all
    from Cons.IH[OF n', of "min m ((low r - ep) / ep * 100)" "Suc i"]
    obtain x xp oc mdd where
      rec: "exit_scan e ep target (min m ((low r - ep) / ep * 100)) (enumerate (Suc i) rest)
              = Some (x, xp, oc, mdd)"
        "Suc i \<le> x" "x \<le> Suc i + n'"
        "x = Suc i + n' \<longrightarrow> oc = Loss \<and>
           xp = (if open_price (rest ! n') < ma10 (rest ! n') then open_price (rest ! n')
                 else ma10 (rest ! n'))"
      by blast
    show ?thesis using rec Suc
      by (auto simp add: Let_def)
  qed
qed

lemma exit_scan_Some_bounds:
  "exit_scan e ep target m (enumerate i xs) = Some (x, xp, oc, mdd) \<Longrightarrow> i \<le> x \<and> x < i + length xs"
proof (induction xs arbitrary: i m)
  case Nil
  then show ?case by simp
next
  case (Cons r rest)
  then show ?case
    by (fastforce simp add: Let_def split: if_splits)
qed

lemma exit_scan_Win_after_entry:
  "e \<le> i \<Longrightarrow> exit_scan e ep target m (enumerate i xs) = Some (x, xp, Win, mdd) \<Longrightarrow>
     e < x \<and> xp = target"
proof (induction xs arbitrary: i m)
  case Nil
  then show ?case by simp
next
  case (Cons r rest)
  from Cons.prems Cons.IH[of "Suc i"] show ?case
    by (auto simp add: Let_def split: if_splits)
qed

lemma find_exit_bounds:
  "find_exit df e ep target = Some (x, xp, oc, mdd) \<Longrightarrow> e \<le> x \<and> x < length df"
  unfolding find_exit_def rows_from_def
  by (drule exit_scan_Some_bounds) auto

lemma find_exit_Win:
  "find_exit df e ep target = Some (x, xp, Win, mdd) \<Longrightarrow> e < x \<and> xp = target"
  unfolding find_exit_def rows_from_def
  using exit_scan_Win_after_entry[of e e ep target 0 "drop e df" x xp mdd] by simp

text \<open>
  C1. Take any bar \<open>k\<close> from the entry bar on where the high reaches the target and the MA10
  condition holds (low at or below MA10, or open below MA10). Then the exit loop returns an
  exit no later than bar \<open>k\<close>; and when the loop reaches bar \<open>k\<close> (the exit is not earlier),
  the exit is on bar \<open>k\<close> with outcome loss, at the open if the open is below MA10 and at
  MA10 otherwise. The outcome on such a bar is never a win.
\<close>

theorem both_hit_exits_with_loss:
  assumes "entry_idx \<le> k" and "k < length df"
    and "high (df ! k) \<ge> target"
    and "low (df ! k) \<le> ma10 (df ! k) \<or> open_price (df ! k) < ma10 (df ! k)"
  shows "\<exists>x xp oc mdd. find_exit df entry_idx entryprice target = Some (x, xp, oc, mdd) \<and>
           x \<le> k \<and>
           (x = k \<longrightarrow> oc = Loss \<and> oc \<noteq> Win \<and>
              xp = (if open_price (df ! k) < ma10 (df ! k) then open_price (df ! k)
                    else ma10 (df ! k)))"
proof -
  let ?xs = "drop entry_idx df" and ?n = "k - entry_idx"
  have n: "?n < length ?xs" using assms(1,2) by simp
  have nth: "?xs ! ?n = df ! k" using assms(1,2) by simp
  from exit_scan_both_hit[of ?n ?xs target entry_idx entryprice 0 entry_idx] n nth assms
  show ?thesis
    unfolding find_exit_def rows_from_def by auto
qed

theorem both_hit_exits_with_loss_witness:
  "(2::nat) \<le> 3 \<and> 3 < length series_both \<and> high (series_both ! 3) \<ge> 10609 / 100 \<and>
   low (series_both ! 3) \<le> ma10 (series_both ! 3) \<and>
   \<not> open_price (series_both ! 3) < ma10 (series_both ! 3) \<and>
   find_exit series_both 2 103 (10609 / 100) = Some (3, 101, Loss, - (300 / 103))"
  using both_hit_exits_with_loss[of 2 3 series_both "10609 / 100" 103]
  by (simp add: series_both_def example_bar_def find_exit_def rows_from_def Let_def)

subsection \<open>The entry loop\<close>

lemma crossed_down_ma5_iff: "crossed_down_ma5 b = below_ma5 b"
  by (simp add: crossed_down_ma5_def below_ma5_def)

lemma entry_scan_find:
  "i \<le> length df \<Longrightarrow>
   entry_scan (enumerate i (drop i df)) =
     (case find (\<lambda>k. below_ma5 (df ! k)) [i..<length df] of
        None \<Rightarrow> None
      | Some k \<Rightarrow> (case resolve_entry (df ! k) of None \<Rightarrow> None | Some p \<Rightarrow> Some (k, p)))"
proof (induction "length df - i" arbitrary: i)
  case 0
  then show ?case by simp
next
  case (Suc d)
  then have lt: "i < length df" by simp
  have dr: "drop i df = df ! i # drop (Suc i) df"
    using lt by (simp add: Cons_nth_drop_Suc)
  have up: "[i..<length df] = i # [Suc i..<length df]"
    using lt by (simp add: upt_conv_Cons)
  have ih: "entry_scan (enumerate (Suc i) (drop (Suc i) df)) =
     (case find (\<lambda>k. below_ma5 (df ! k)) [Suc i..<length df] of
        None \<Rightarrow> None
      | Some k \<Rightarrow> (case resolve_entry (df ! k) of None \<Rightarrow> None | Some p \<Rightarrow> Some (k, p)))"
    using Suc.hyps(1)[of "Suc i"] Suc.hyps(2) lt by simp
  show ?case
    by (simp add: dr up crossed_down_ma5_iff ih)
qed

text \<open>
  C4. The entry loop of the source computes the entry rule as the specification words it: it
  stops at the first bar after the trigger that has a price below its MA5, abandons there when
  the open is below MA10, when the spread is under 3 percent or when MA5 > MA10 > MA20 fails,
  and otherwise enters at the open (open below MA5), at MA5 (low <= MA5 <= high) or at the
  open; with no candidate up to the end of the series there is no entry. The result is an
  optional pair, so a trigger has at most one entry.
\<close>

theorem find_entry_follows_spec:
  "find_entry df idx = entry_by_spec df idx"
proof (cases "Suc idx \<le> length df")
  case True
  have res: "\<And>b. resolve_entry b =
      (if open_price b < ma10 b then None
       else if (ma5 b - ma10 b) / ma10 b * 100 < 3 \<or> \<not> (ma5 b > ma10 b \<and> ma10 b > ma20 b)
         then None
       else Some (if open_price b < ma5 b then open_price b
                  else if low b \<le> ma5 b \<and> ma5 b \<le> high b then ma5 b
                  else open_price b))"
    by (simp add: resolve_entry_def is_valid_entry_def Let_def)
  show ?thesis
    unfolding find_entry_def rows_from_def entry_by_spec_def first_candidate_def
    by (simp add: entry_scan_find[OF True] res Let_def split: option.splits)
next
  case False
  then show ?thesis
    by (simp add: find_entry_def rows_from_def entry_by_spec_def first_candidate_def)
qed

subsection \<open>The trigger test\<close>

lemma has_zero_run_Cons:
  "has_zero_run (r # rs) \<longleftrightarrow>
     (r = 0 \<and> 2 \<le> length rs \<and> rs ! 0 = 0 \<and> rs ! 1 = 0) \<or> has_zero_run rs"
proof
  assume "has_zero_run (r # rs)"
  then obtain i where i: "i < length (r # rs) - 2" "(r # rs) ! i = 0" "(r # rs) ! (i + 1) = 0"
      "(r # rs) ! (i + 2) = 0"
    by (auto simp: has_zero_run_def)
  show "(r = 0 \<and> 2 \<le> length rs \<and> rs ! 0 = 0 \<and> rs ! 1 = 0) \<or> has_zero_run rs"
  proof (cases i)
    case 0
    with i show ?thesis by auto
  next
    case (Suc j)
    with i have "j < length rs - 2" "rs ! j = 0" "rs ! (j + 1) = 0" "rs ! (j + 2) = 0"
      by auto
    then show ?thesis by (auto simp: has_zero_run_def)
  qed
next
  assume a: "(r = 0 \<and> 2 \<le> length rs \<and> rs ! 0 = 0 \<and> rs ! 1 = 0) \<or> has_zero_run rs"
  show "has_zero_run (r # rs)"
  proof (cases "has_zero_run rs")
    case True
    then obtain j where j: "j < length rs - 2" "rs ! j = 0" "rs ! (j + 1) = 0" "rs ! (j + 2) = 0"
      by (auto simp: has_zero_run_def)
    then have "Suc j < length (r # rs) - 2" "(r # rs) ! Suc j = 0" "(r # rs) ! (Suc j + 1) = 0"
      "(r # rs) ! (Suc j + 2) = 0"
      by auto
    then show ?thesis unfolding has_zero_run_def by (metis atLeastLessThan_iff le0)
  next
    case False
    with a have "r = 0" "2 \<le> length rs" "rs ! 0 = 0" "rs ! 1 = 0" by auto
    then have "0 < length (r # rs) - 2" "(r # rs) ! 0 = 0" "(r # rs) ! (0 + 1) = 0"
      "(r # rs) ! (0 + 2) = 0"
      by auto
    then show ?thesis unfolding has_zero_run_def by (metis atLeastLessThan_iff le0)
  qed
qed

lemma flat_scan_iff:
  "c < 3 \<Longrightarrow>
   flat_scan c xs \<longleftrightarrow> (3 - c \<le> length xs \<and> (\<forall>i < 3 - c. xs ! i = 0)) \<or> has_zero_run xs"
proof (induction xs arbitrary: c)
  case Nil
  then show ?case by (simp add: has_zero_run_def)
next
  case (Cons r rs)
  consider (z2) "r = 0" "c = 2" | (z1) "r = 0" "c = 1" | (z0) "r = 0" "c = 0" | (nz) "r \<noteq> 0"
    using Cons.prems by linarith
  then show ?case
  proof cases
    case z2
    then show ?thesis by simp
  next
    case z1
    have "flat_scan 2 rs \<longleftrightarrow> (1 \<le> length rs \<and> rs ! 0 = 0) \<or> has_zero_run rs"
      using Cons.IH[of 2] by simp
    with z1 show ?thesis
      by (auto simp: has_zero_run_Cons less_Suc_eq nth_Cons' numeral_2_eq_2)
  next
    case z0
    have "flat_scan 1 rs \<longleftrightarrow> (2 \<le> length rs \<and> rs ! 0 = 0 \<and> rs ! 1 = 0) \<or> has_zero_run rs"
      using Cons.IH[of 1] by (auto simp: less_Suc_eq numeral_2_eq_2)
    with z0 show ?thesis
      by (auto simp: has_zero_run_Cons less_Suc_eq nth_Cons' numeral_3_eq_3 )
  next
    case nz
    have "flat_scan 0 rs \<longleftrightarrow> has_zero_run rs"
    proof -
      have "3 \<le> length rs \<and> (\<forall>i<3. rs ! i = 0) \<Longrightarrow> has_zero_run rs"
      proof -
        assume a: "3 \<le> length rs \<and> (\<forall>i<3. rs ! i = 0)"
        then have "0 < length rs - 2" "rs ! 0 = 0" "rs ! (0 + 1) = 0" "rs ! (0 + 2) = 0" by auto
        then show ?thesis unfolding has_zero_run_def by (metis atLeastLessThan_iff le0)
      qed
      then show ?thesis using Cons.IH[of 0] by auto
    qed
    moreover have nall: "\<not> (\<forall>i < 3 - c. (r # rs) ! i = 0)"
    proof
      assume "\<forall>i < 3 - c. (r # rs) ! i = 0"
      moreover have "0 < 3 - c" using Cons.prems by simp
      ultimately have "(r # rs) ! 0 = 0" by blast
      with nz show False by simp
    qed
    ultimately show ?thesis using nz
      by (auto simp add: has_zero_run_Cons simp del: not_all)
  qed
qed

lemma flat_scan_has_zero_run: "flat_scan 0 xs = has_zero_run xs"
proof -
  have "3 \<le> length xs \<and> (\<forall>i<3. xs ! i = 0) \<Longrightarrow> has_zero_run xs"
  proof -
    assume a: "3 \<le> length xs \<and> (\<forall>i<3. xs ! i = 0)"
    then have "0 < length xs - 2" "xs ! 0 = 0" "xs ! (0 + 1) = 0" "xs ! (0 + 2) = 0" by auto
    then show ?thesis unfolding has_zero_run_def by (metis atLeastLessThan_iff le0)
  qed
  then show ?thesis using flat_scan_iff[of 0 xs] by auto
qed

text \<open>
  The trigger test in the words of the specification, with the previous bar's percent change
  strictly above -10 as the source has it. This is the test on bars whose fields are all
  numbers; a moving average that is not yet defined (NaN on the first rows of a symbol) is
  outside the embedding.
\<close>

lemma is_trigger_on_numbers:
  "is_trigger df th idx = trigger_by_spec_strict df th idx"
  by (auto simp add: is_trigger_def trigger_by_spec_strict_def Let_def flat_scan_has_zero_run)


text \<open>
  C9. Every enabled threshold is compared strictly and a disabled one asks nothing: the
  threshold conditions hold exactly when each enabled bound is strictly exceeded (minimum) or
  strictly undercut (maximum). So a bar whose percent change equals the enabled minimum or
  maximum rate, whose traded value equals the enabled minimum or maximum volume, or whose
  foreign or institution net buy equals the enabled minimum fails the test and yields no trade.
\<close>

theorem threshold_comparisons_strict:
  "(threshold_conditions th row \<longleftrightarrow>
      (\<forall>m. min_rate th = Some m \<longrightarrow> m < pct_change row) \<and>
      (\<forall>m. max_rate th = Some m \<longrightarrow> pct_change row < m) \<and>
      (\<forall>m. min_volume th = Some m \<longrightarrow> of_int m < traded_value row) \<and>
      (\<forall>m. max_volume th = Some m \<longrightarrow> traded_value row < of_int m) \<and>
      (\<forall>m. min_foreign th = Some m \<longrightarrow>
           of_int m < (case foreign_net row of None \<Rightarrow> 0 | Some v \<Rightarrow> v)) \<and>
      (\<forall>m. min_institution th = Some m \<longrightarrow>
           of_int m < (case institution_net row of None \<Rightarrow> 0 | Some v \<Rightarrow> v))) \<and>
   (row = df ! idx \<and>
    (min_rate th = Some (pct_change row) \<or> max_rate th = Some (pct_change row) \<or>
     (\<exists>m. min_volume th = Some m \<and> traded_value row = of_int m) \<or>
     (\<exists>m. max_volume th = Some m \<and> traded_value row = of_int m) \<or>
     (\<exists>m. min_foreign th = Some m \<and>
          (case foreign_net row of None \<Rightarrow> 0 | Some v \<Rightarrow> v) = of_int m) \<or>
     (\<exists>m. min_institution th = Some m \<and>
          (case institution_net row of None \<Rightarrow> 0 | Some v \<Rightarrow> v) = of_int m))
    \<longrightarrow> \<not> threshold_conditions th row \<and> \<not> is_trigger df th idx \<and> trade_at df th idx = None)"
proof -
  have char: "threshold_conditions th row \<longleftrightarrow>
      (\<forall>m. min_rate th = Some m \<longrightarrow> m < pct_change row) \<and>
      (\<forall>m. max_rate th = Some m \<longrightarrow> pct_change row < m) \<and>
      (\<forall>m. min_volume th = Some m \<longrightarrow> of_int m < traded_value row) \<and>
      (\<forall>m. max_volume th = Some m \<longrightarrow> traded_value row < of_int m) \<and>
      (\<forall>m. min_foreign th = Some m \<longrightarrow>
           of_int m < (case foreign_net row of None \<Rightarrow> 0 | Some v \<Rightarrow> v)) \<and>
      (\<forall>m. min_institution th = Some m \<longrightarrow>
           of_int m < (case institution_net row of None \<Rightarrow> 0 | Some v \<Rightarrow> v))"
    unfolding threshold_conditions_def by (simp split: option.splits)
  have fail: "\<not> threshold_conditions th (df ! idx) \<Longrightarrow>
      \<not> is_trigger df th idx \<and> trade_at df th idx = None"
    by (simp add: is_trigger_def trade_at_def Let_def)
  show ?thesis
    using char fail by force
qed

theorem threshold_comparisons_strict_witness:
  "min_rate (no_thresholds\<lparr>min_rate := Some 10\<rparr>) = Some (pct_change (series_win ! 1)) \<and>
   \<not> threshold_conditions (no_thresholds\<lparr>min_rate := Some 10\<rparr>) (series_win ! 1) \<and>
   \<not> is_trigger series_win (no_thresholds\<lparr>min_rate := Some 10\<rparr>) 1 \<and>
   trade_at series_win (no_thresholds\<lparr>min_rate := Some 10\<rparr>) 1 = None \<and>
   threshold_conditions no_thresholds (series_win ! 1)"
  using threshold_comparisons_strict
          [of "no_thresholds\<lparr>min_rate := Some 10\<rparr>" "series_win ! 1" series_win 1]
        threshold_comparisons_strict [of no_thresholds "series_win ! 1" series_win 1]
  by (simp add: no_thresholds_def series_win_def example_bar_def)

subsection \<open>The main loop\<close>

lemma distinct_map_insort_key:
  "distinct (map f (insort_key f x xs)) \<longleftrightarrow> f x \<notin> f ` set xs \<and> distinct (map f xs)"
  by (induction xs) (auto simp: set_insort_key)

lemma distinct_map_sort_key:
  "distinct (map f (sort_key f xs)) = distinct (map f xs)"
  by (induction xs) (auto simp: distinct_map_insort_key)

lemma dates_strictly_increasing:
  assumes "distinct (map date df)" and "i < j" and "j < length df"
  shows "date (sort_key date df ! i) < date (sort_key date df ! j)"
proof -
  let ?ds = "map date (sort_key date df)"
  have "sorted ?ds" by (rule sorted_sort_key)
  moreover have "distinct ?ds" using assms(1) by (simp add: distinct_map_sort_key)
  ultimately have "sorted_wrt (<) ?ds" by (simp add: strict_sorted_iff)
  then have "?ds ! i < ?ds ! j"
    using assms(2,3) by (simp add: sorted_wrt_iff_nth_less)
  then show ?thesis using assms(2,3) by simp
qed

lemma entry_scan_Some:
  "entry_scan (enumerate i xs) = Some (k, p) \<Longrightarrow>
     i \<le> k \<and> k < i + length xs \<and> resolve_entry (xs ! (k - i)) = Some p"
proof (induction xs arbitrary: i)
  case Nil
  then show ?case by simp
next
  case (Cons r rest)
  show ?case
  proof (cases "crossed_down_ma5 r")
    case True
    with Cons.prems show ?thesis by (auto split: option.splits)
  next
    case False
    with Cons.prems have "entry_scan (enumerate (Suc i) rest) = Some (k, p)" by simp
    from Cons.IH[OF this] show ?thesis by (auto simp: Suc_diff_Suc less_eq_Suc_le)
  qed
qed

lemma find_entry_Some:
  assumes "find_entry df idx = Some (e, ep)"
  shows "idx < e \<and> e < length df \<and> resolve_entry (df ! e) = Some ep"
proof -
  from assms have "entry_scan (enumerate (Suc idx) (drop (Suc idx) df)) = Some (e, ep)"
    by (simp add: find_entry_def rows_from_def)
  from entry_scan_Some[OF this]
  have b: "Suc idx \<le> e" "e < Suc idx + length (drop (Suc idx) df)"
    and r: "resolve_entry (drop (Suc idx) df ! (e - Suc idx)) = Some ep"
    by simp_all
  from b have "e < length df" by simp
  moreover from b this have "drop (Suc idx) df ! (e - Suc idx) = df ! e" by simp
  ultimately show ?thesis using b r by simp
qed

lemma resolve_entry_Some:
  "resolve_entry b = Some ep \<Longrightarrow> 3 \<le> (ma5 b - ma10 b) / ma10 b * 100 \<and> is_valid_entry b"
  by (simp add: resolve_entry_def Let_def split: if_splits)

lemma trade_at_Some:
  assumes "trade_at df th idx = Some r"
  obtains e ep x xp oc mdd where
    "is_trigger df th idx" and "find_entry df idx = Some (e, ep)"
    and "find_exit df e ep (calculate_target_price ep (ma5 (df ! e)) (ma10 (df ! e)))
           = Some (x, xp, oc, mdd)"
    and "r = build_trade df idx e ep
               (py_round ((ma5 (df ! e) - ma10 (df ! e)) / ma10 (df ! e) * 100) 2)
               (calculate_target_price ep (ma5 (df ! e)) (ma10 (df ! e))) x xp oc mdd"
  using assms
  by (auto simp add: trade_at_def Let_def split: if_splits option.splits)

lemma scan_Suc: "scan df th m (Suc n) = step df th m (scan df th m n) n"
  by (simp add: scan_def)

lemma step_cases:
  assumes "step df th m (w, rs) idx = (w', rs')"
  shows "(w' = w \<and> rs' = rs) \<or>
         (\<not> w' \<and> rs' = rs \<and> (w \<longrightarrow> close_price (df ! idx) < ma20 (df ! idx))) \<or>
         (\<exists>r. 0 < idx \<and> trade_at df th idx = Some r \<and> rs' = rs @ [r] \<and> w' \<and>
              (w \<longrightarrow> close_price (df ! idx) < ma20 (df ! idx)))"
  using assms
  by (auto simp add: step_def Let_def split: if_splits option.splits)

lemma scan_records:
  "r \<in> set (snd (scan df th m n)) \<Longrightarrow> \<exists>idx. 0 < idx \<and> idx < n \<and> trade_at df th idx = Some r"
proof (induction n)
  case 0
  then show ?case by (simp add: scan_def)
next
  case (Suc n)
  obtain w rs where st: "scan df th m n = (w, rs)" by (cases "scan df th m n")
  obtain w' rs' where st': "step df th m (w, rs) n = (w', rs')"
    by (cases "step df th m (w, rs) n")
  from Suc.prems have mem: "r \<in> set rs'" by (simp add: scan_Suc st st')
  show ?case
  proof (cases "r \<in> set rs")
    case True
    with Suc.IH st obtain idx where "0 < idx" "idx < n" "trade_at df th idx = Some r" by auto
    then show ?thesis using less_Suc_eq by blast
  next
    case False
    with step_cases[OF st'] mem have "0 < n \<and> trade_at df th n = Some r" by auto
    then show ?thesis by blast
  qed
qed

lemma run_backtest_records:
  assumes "r \<in> set (run_backtest df th m)"
  obtains idx e ep x xp oc mdd where
    "0 < idx" and "idx < e" and "e \<le> x" and "x < length df"
    and "resolve_entry (sort_key date df ! e) = Some ep"
    and "find_exit (sort_key date df) e ep
           (calculate_target_price ep (ma5 (sort_key date df ! e)) (ma10 (sort_key date df ! e)))
           = Some (x, xp, oc, mdd)"
    and "r = build_trade (sort_key date df) idx e ep
               (py_round ((ma5 (sort_key date df ! e) - ma10 (sort_key date df ! e))
                          / ma10 (sort_key date df ! e) * 100) 2)
               (calculate_target_price ep (ma5 (sort_key date df ! e))
                  (ma10 (sort_key date df ! e))) x xp oc mdd"
proof -
  let ?sdf = "sort_key date df"
  from assms have "r \<in> set (snd (scan ?sdf th m (length ?sdf)))"
    by (simp add: run_backtest_def Let_def)
  from scan_records[OF this] obtain idx where idx: "0 < idx" "trade_at ?sdf th idx = Some r"
    by blast
  from idx(2) obtain e ep x xp oc mdd where
    tr: "is_trigger ?sdf th idx"
    and fe: "find_entry ?sdf idx = Some (e, ep)"
    and fx: "find_exit ?sdf e ep (calculate_target_price ep (ma5 (?sdf ! e)) (ma10 (?sdf ! e)))
           = Some (x, xp, oc, mdd)"
    and r: "r = build_trade ?sdf idx e ep
               (py_round ((ma5 (?sdf ! e) - ma10 (?sdf ! e)) / ma10 (?sdf ! e) * 100) 2)
               (calculate_target_price ep (ma5 (?sdf ! e)) (ma10 (?sdf ! e))) x xp oc mdd"
    by (rule trade_at_Some)
  from find_entry_Some[OF fe] have e: "idx < e" "resolve_entry (?sdf ! e) = Some ep" by simp_all
  from find_exit_bounds[OF fx] have x: "e \<le> x" "x < length df" by simp_all
  show thesis
    by (rule that[OF idx(1) e(1) x e(2) fx r])
qed

subsection \<open>Rounding\<close>

lemma rint_error: "\<bar>of_int (rint y) - y\<bar> \<le> 1 / 2"
proof -
  have "of_int \<lfloor>y\<rfloor> \<le> y" "y < of_int \<lfloor>y\<rfloor> + 1" by linarith+
  then show ?thesis
    by (auto simp add: rint_def Let_def)
qed

lemma py_round_error: "\<bar>py_round x n - x\<bar> \<le> 1 / (2 * 10 ^ n)"
proof -
  have pos: "(0::real) < 10 ^ n" by simp
  have "py_round x n - x = (of_int (rint (x * 10 ^ n)) - x * 10 ^ n) / 10 ^ n"
    by (simp add: py_round_def diff_divide_distrib)
  then have "\<bar>py_round x n - x\<bar> = \<bar>of_int (rint (x * 10 ^ n)) - x * 10 ^ n\<bar> / 10 ^ n"
    by (simp add: abs_divide)
  also have "\<dots> \<le> (1 / 2) / 10 ^ n"
    by (rule divide_right_mono) (use rint_error[of "x * 10 ^ n"] in simp_all)
  finally show ?thesis by simp
qed

lemma rint_ge_floor: "\<lfloor>y\<rfloor> \<le> rint y"
  by (simp add: rint_def Let_def)

lemma py_round_2_ge_3: assumes "3 \<le> x" shows "3 \<le> py_round x 2"
proof -
  have "(300::real) \<le> x * 100" using assms by simp
  then have "300 \<le> \<lfloor>x * 100\<rfloor>" by linarith
  then have "300 \<le> rint (x * 100)" using rint_ge_floor[of "x * 100"] by linarith
  then have "(300::real) \<le> of_int (rint (x * 100))" by linarith
  then show ?thesis by (simp add: py_round_def)
qed

subsection \<open>The example series, evaluated\<close>

lemmas engine_defs =
  run_backtest_def scan_def step_def trade_at_def build_trade_def is_trigger_def
  threshold_conditions_def past_20_def find_entry_def find_exit_def rows_from_def
  crossed_down_ma5_def resolve_entry_def is_valid_entry_def calculate_target_price_def
  calculate_return_def py_round_def rint_def custom_max_gain_pct_def risk_to_reward_of_def
  Let_def example_bar_def no_thresholds_def

lemma run_series_win: "run_backtest series_win no_thresholds None = [trade_win]"
  by (simp add: engine_defs series_win_def trade_win_def)

lemma run_series_loss: "run_backtest series_loss no_thresholds None = [trade_loss]"
  by (simp add: engine_defs series_loss_def trade_loss_def)

lemma run_series_overlap:
  "run_backtest series_overlap no_thresholds None = [trade_overlap 2, trade_overlap 3]"
  by (simp add: engine_defs series_overlap_def trade_overlap_def)

subsection \<open>Properties of the emitted records\<close>

lemma build_trade_fields:
  "trigger_date (build_trade df idx e ep sp tg x xp oc mdd) = date (df ! idx)"
  "entry_date (build_trade df idx e ep sp tg x xp oc mdd) = date (df ! e)"
  "exit_date (build_trade df idx e ep sp tg x xp oc mdd) = date (df ! x)"
  "entry_price (build_trade df idx e ep sp tg x xp oc mdd) = ep"
  "exit_price (build_trade df idx e ep sp tg x xp oc mdd) = xp"
  "return_pct (build_trade df idx e ep sp tg x xp oc mdd) = calculate_return ep xp"
  "target_price (build_trade df idx e ep sp tg x xp oc mdd) = tg"
  "outcome (build_trade df idx e ep sp tg x xp oc mdd) = oc"
  "spread_ma5_10 (build_trade df idx e ep sp tg x xp oc mdd) = sp"
  "risk_to_reward (build_trade df idx e ep sp tg x xp oc mdd)
     = risk_to_reward_of (calculate_return ep xp) sp"
  by (simp_all add: build_trade_def Let_def)

lemma win_exits_after_entry:
  assumes "distinct (map date df)" and "r \<in> set (run_backtest df th m)"
  shows "\<not> (outcome r = Win \<and> entry_date r = exit_date r) \<and>
         (outcome r = Win \<longrightarrow> entry_date r < exit_date r)"
proof -
  let ?sdf = "sort_key date df"
  from assms(2) obtain idx e ep x xp oc mdd where
    "0 < idx" and "idx < e" and "e \<le> x" and x: "x < length df"
    and "resolve_entry (?sdf ! e) = Some ep"
    and fx: "find_exit ?sdf e ep
           (calculate_target_price ep (ma5 (?sdf ! e)) (ma10 (?sdf ! e))) = Some (x, xp, oc, mdd)"
    and r: "r = build_trade ?sdf idx e ep
               (py_round ((ma5 (?sdf ! e) - ma10 (?sdf ! e)) / ma10 (?sdf ! e) * 100) 2)
               (calculate_target_price ep (ma5 (?sdf ! e)) (ma10 (?sdf ! e))) x xp oc mdd"
    by (rule run_backtest_records)
  have win: "entry_date r < exit_date r" if "outcome r = Win"
  proof -
    from that r have "oc = Win" by (simp add: build_trade_fields)
    with fx have "e < x" using find_exit_Win by blast
    from dates_strictly_increasing[OF assms(1) this x] r show ?thesis
      by (simp add: build_trade_fields)
  qed
  show ?thesis
  proof (cases "outcome r = Win")
    case True
    with win show ?thesis by simp
  next
    case False
    then show ?thesis by simp
  qed
qed

lemma rows_from_Cons:
  "e < length df \<Longrightarrow> rows_from df e = (e, df ! e) # rows_from df (Suc e)"
  by (simp add: rows_from_def Cons_nth_drop_Suc[symmetric])

lemma find_exit_skips_entry_bar:
  assumes "e < length df" and "high (df ! e) \<ge> tg"
    and "\<not> low (df ! e) \<le> ma10 (df ! e)" and "\<not> open_price (df ! e) < ma10 (df ! e)"
  shows "find_exit df e ep tg =
           exit_scan e ep tg (min 0 ((low (df ! e) - ep) / ep * 100)) (rows_from df (Suc e))"
  using assms(2-4) by (simp add: find_exit_def rows_from_Cons[OF assms(1)] Let_def)

lemma exit_scan_rows_from_bounds:
  assumes "exit_scan e ep tg m0 (rows_from df i) = Some (x, xp, oc, mdd)"
  shows "i \<le> x"
  using exit_scan_Some_bounds[of e ep tg m0 i "drop i df" x xp oc mdd] assms
  by (simp add: rows_from_def)

lemmas run_series_skip_defs = engine_defs series_skip_def trade_win_def

lemma run_series_skip: "run_backtest series_skip no_thresholds None = [trade_win]"
  by (simp add: run_series_skip_defs)

text \<open>
  C2. (1) On a series without duplicate dates, no emitted trade record has outcome win with
  the entry date equal to the exit date; the exit date of a win is strictly after its entry
  date. (2) A target-only hit on the entry bar (high at or above the target, low above MA10,
  open not below MA10) is skipped and scanning continues: the exit loop started at the entry
  bar gives what the loop gives from the next bar on, with the entry bar's drawdown taken into
  the running minimum, and any exit it finds is on a bar strictly after the entry bar.
\<close>

theorem no_same_day_win:
  "(distinct (map date df) \<and> r \<in> set (run_backtest df th m) \<longrightarrow>
      \<not> (outcome r = Win \<and> entry_date r = exit_date r) \<and>
      (outcome r = Win \<longrightarrow> entry_date r < exit_date r)) \<and>
   (e < length bars \<and> high (bars ! e) \<ge> tg \<and>
    \<not> low (bars ! e) \<le> ma10 (bars ! e) \<and> \<not> open_price (bars ! e) < ma10 (bars ! e) \<longrightarrow>
      find_exit bars e ep tg =
        exit_scan e ep tg (min 0 ((low (bars ! e) - ep) / ep * 100)) (rows_from bars (Suc e)) \<and>
      (\<forall>x xp oc mdd. find_exit bars e ep tg = Some (x, xp, oc, mdd) \<longrightarrow> e < x))"
proof (intro conjI impI)
  assume a: "distinct (map date df) \<and> r \<in> set (run_backtest df th m)"
  then have d: "distinct (map date df)" and m: "r \<in> set (run_backtest df th m)" by simp_all
  from win_exits_after_entry[OF d m]
  show "\<not> (outcome r = Win \<and> entry_date r = exit_date r)" by (rule conjunct1)
  assume "outcome r = Win"
  with win_exits_after_entry[OF d m] show "entry_date r < exit_date r" by simp
next
  assume a: "e < length bars \<and> high (bars ! e) \<ge> tg \<and>
    \<not> low (bars ! e) \<le> ma10 (bars ! e) \<and> \<not> open_price (bars ! e) < ma10 (bars ! e)"
  then have skip: "find_exit bars e ep tg =
      exit_scan e ep tg (min 0 ((low (bars ! e) - ep) / ep * 100)) (rows_from bars (Suc e))"
    by (intro find_exit_skips_entry_bar) simp_all
  show "find_exit bars e ep tg =
      exit_scan e ep tg (min 0 ((low (bars ! e) - ep) / ep * 100)) (rows_from bars (Suc e))"
    by (rule skip)
  show "\<forall>x xp oc mdd. find_exit bars e ep tg = Some (x, xp, oc, mdd) \<longrightarrow> e < x"
  proof (intro allI impI)
    fix x xp oc mdd
    assume "find_exit bars e ep tg = Some (x, xp, oc, mdd)"
    with skip have "exit_scan e ep tg (min 0 ((low (bars ! e) - ep) / ep * 100))
        (rows_from bars (Suc e)) = Some (x, xp, oc, mdd)" by simp
    from exit_scan_rows_from_bounds[OF this] show "e < x" by simp
  qed
qed

theorem no_same_day_win_witness:
  "distinct (map date series_skip) \<and>
   trade_win \<in> set (run_backtest series_skip no_thresholds None) \<and>
   outcome trade_win = Win \<and> entry_date trade_win < exit_date trade_win \<and>
   2 < length series_skip \<and> high (series_skip ! 2) \<ge> 10609 / 100 \<and>
   \<not> low (series_skip ! 2) \<le> ma10 (series_skip ! 2) \<and>
   \<not> open_price (series_skip ! 2) < ma10 (series_skip ! 2) \<and>
   find_exit series_skip 2 103 (10609 / 100) =
     exit_scan 2 103 (10609 / 100) (- (100 / 103)) (rows_from series_skip (Suc 2)) \<and>
   find_exit series_skip 2 103 (10609 / 100) = Some (3, 10609 / 100, Win, - (100 / 103))"
proof -
  have d: "distinct (map date series_skip)"
    by (simp add: series_skip_def example_bar_def)
  have m: "trade_win \<in> set (run_backtest series_skip no_thresholds None)"
    by (simp add: run_series_skip)
  have w: "outcome trade_win = Win" by (simp add: trade_win_def)
  have h: "2 < length series_skip" "high (series_skip ! 2) \<ge> 10609 / 100"
    "\<not> low (series_skip ! 2) \<le> ma10 (series_skip ! 2)"
    "\<not> open_price (series_skip ! 2) < ma10 (series_skip ! 2)"
    by (simp_all add: series_skip_def example_bar_def)
  have l: "min 0 ((low (series_skip ! 2) - 103) / 103 * 100) = - (100 / 103)"
    by (simp add: series_skip_def example_bar_def)
  note inst = no_same_day_win[of series_skip trade_win no_thresholds None 2 series_skip
      "10609 / 100" 103]
  from inst d m w have 1: "entry_date trade_win < exit_date trade_win" by blast
  from inst h have "find_exit series_skip 2 103 (10609 / 100) =
      exit_scan 2 103 (10609 / 100) (min 0 ((low (series_skip ! 2) - 103) / 103 * 100))
        (rows_from series_skip (Suc 2))" by blast
  then have 2: "find_exit series_skip 2 103 (10609 / 100) =
      exit_scan 2 103 (10609 / 100) (- (100 / 103)) (rows_from series_skip (Suc 2))"
    by (simp only: l)
  have 3: "find_exit series_skip 2 103 (10609 / 100) = Some (3, 10609 / 100, Win, - (100 / 103))"
    by (simp add: find_exit_def rows_from_def series_skip_def example_bar_def Let_def)
  from d m w 1 h 2 3 show ?thesis by (intro conjI)
qed

lemma recorded_spread_at_least_3:
  assumes "r \<in> set (run_backtest df th m)"
  shows "3 \<le> spread_ma5_10 r"
proof -
  let ?sdf = "sort_key date df"
  from assms obtain idx e ep x xp oc mdd where
    "0 < idx" and "idx < e" and "e \<le> x" and x: "x < length df"
    and re: "resolve_entry (?sdf ! e) = Some ep"
    and fx: "find_exit ?sdf e ep
           (calculate_target_price ep (ma5 (?sdf ! e)) (ma10 (?sdf ! e))) = Some (x, xp, oc, mdd)"
    and r: "r = build_trade ?sdf idx e ep
               (py_round ((ma5 (?sdf ! e) - ma10 (?sdf ! e)) / ma10 (?sdf ! e) * 100) 2)
               (calculate_target_price ep (ma5 (?sdf ! e)) (ma10 (?sdf ! e))) x xp oc mdd"
    by (rule run_backtest_records)
  from resolve_entry_Some[OF re]
  have "3 \<le> (ma5 (?sdf ! e) - ma10 (?sdf ! e)) / ma10 (?sdf ! e) * 100" by simp
  from py_round_2_ge_3[OF this] r show ?thesis by (simp add: build_trade_fields)
qed

lemma recorded_risk_to_reward:
  assumes "r \<in> set (run_backtest df th m)"
  shows "risk_to_reward r =
           (if spread_ma5_10 r = 0 then None
            else Some (py_round (return_pct r / spread_ma5_10 r) 4))"
proof -
  let ?sdf = "sort_key date df"
  from assms obtain idx e ep x xp oc mdd where
    "0 < idx" and "idx < e" and "e \<le> x" and x: "x < length df"
    and re: "resolve_entry (?sdf ! e) = Some ep"
    and fx: "find_exit ?sdf e ep
           (calculate_target_price ep (ma5 (?sdf ! e)) (ma10 (?sdf ! e))) = Some (x, xp, oc, mdd)"
    and r: "r = build_trade ?sdf idx e ep
               (py_round ((ma5 (?sdf ! e) - ma10 (?sdf ! e)) / ma10 (?sdf ! e) * 100) 2)
               (calculate_target_price ep (ma5 (?sdf ! e)) (ma10 (?sdf ! e))) x xp oc mdd"
    by (rule run_backtest_records)
  from r show ?thesis
    by (simp add: build_trade_fields risk_to_reward_of_def)
qed

text \<open>
  C8 (as the source has it). A trade record built with any recorded MA5-MA10 spread \<open>sp\<close>
  carries that spread and has its risk/reward field undefined when \<open>sp\<close> is zero, so no
  quotient by zero is formed; otherwise the field is the recorded return divided by \<open>sp\<close>,
  rounded to 4 decimal places. The same holds of every record that \<open>run_backtest\<close> emits.
\<close>

theorem risk_to_reward_guarded_and_rounded:
  "spread_ma5_10 (build_trade df idx e ep sp tg x xp oc mdd) = sp \<and>
   return_pct (build_trade df idx e ep sp tg x xp oc mdd) = calculate_return ep xp \<and>
   risk_to_reward (build_trade df idx e ep sp tg x xp oc mdd) =
     (if sp = 0 then None else Some (py_round (calculate_return ep xp / sp) 4)) \<and>
   (r \<in> set (run_backtest bars th m) \<longrightarrow>
      risk_to_reward r =
        (if spread_ma5_10 r = 0 then None
         else Some (py_round (return_pct r / spread_ma5_10 r) 4)))"
proof (intro conjI impI)
  show "spread_ma5_10 (build_trade df idx e ep sp tg x xp oc mdd) = sp"
    by (simp add: build_trade_fields)
  show "return_pct (build_trade df idx e ep sp tg x xp oc mdd) = calculate_return ep xp"
    by (simp add: build_trade_fields)
  show "risk_to_reward (build_trade df idx e ep sp tg x xp oc mdd) =
     (if sp = 0 then None else Some (py_round (calculate_return ep xp / sp) 4))"
    by (simp add: build_trade_fields risk_to_reward_of_def)
  assume "r \<in> set (run_backtest bars th m)"
  then show "risk_to_reward r =
        (if spread_ma5_10 r = 0 then None
         else Some (py_round (return_pct r / spread_ma5_10 r) 4))"
    by (rule recorded_risk_to_reward)
qed

theorem risk_to_reward_guarded_and_rounded_witness:
  "spread_ma5_10 (build_trade series_win 1 2 103 0 (10609 / 100) 3 (10609 / 100) Win 0) = 0 \<and>
   risk_to_reward (build_trade series_win 1 2 103 0 (10609 / 100) 3 (10609 / 100) Win 0) = None \<and>
   trade_loss \<in> set (run_backtest series_loss no_thresholds None) \<and>
   spread_ma5_10 trade_loss = 3 \<and> return_pct trade_loss = - (97 / 50) \<and>
   risk_to_reward trade_loss = Some (py_round (- (97 / 50) / 3) 4) \<and>
   risk_to_reward trade_loss = Some (- (6467 / 10000))"
proof -
  note inst = risk_to_reward_guarded_and_rounded
      [of series_win 1 2 103 0 "10609 / 100" 3 "10609 / 100" Win 0 trade_loss series_loss
          no_thresholds None]
  have m: "trade_loss \<in> set (run_backtest series_loss no_thresholds None)"
    by (simp add: run_series_loss)
  from inst have 1:
    "spread_ma5_10 (build_trade series_win 1 2 103 0 (10609 / 100) 3 (10609 / 100) Win 0) = 0"
    by (elim conjE)
  from inst have 2:
    "risk_to_reward (build_trade series_win 1 2 103 0 (10609 / 100) 3 (10609 / 100) Win 0) = None"
    by simp
  from inst m have 3: "risk_to_reward trade_loss =
        (if spread_ma5_10 trade_loss = 0 then None
         else Some (py_round (return_pct trade_loss / spread_ma5_10 trade_loss) 4))"
    by blast
  have 4: "spread_ma5_10 trade_loss = 3" "return_pct trade_loss = - (97 / 50)"
    "risk_to_reward trade_loss = Some (- (6467 / 10000))"
    by (simp_all add: trade_loss_def)
  from 3 4 have 5: "risk_to_reward trade_loss = Some (py_round (- (97 / 50) / 3) 4)"
    by simp
  from 1 2 m 4 5 show ?thesis by (intro conjI)
qed

text \<open>
  C8 as stated fails in its last part: the recorded risk/reward is the rounded quotient, here
  -0.6467 for a return of -1.94 and a spread of 3.
\<close>

theorem risk_to_reward_not_exact_counterexample:
  "run_backtest series_loss no_thresholds None = [trade_loss] \<and>
   spread_ma5_10 trade_loss \<noteq> 0 \<and>
   risk_to_reward trade_loss \<noteq> Some (return_pct trade_loss / spread_ma5_10 trade_loss)"
  by (simp add: run_series_loss) (simp add: trade_loss_def)

text \<open>
  C10. For every emitted trade record: the target price is the entry price times
  (1 + (MA5 - MA10) / MA10) of the entry bar, rounded to 2 decimal places, so it lies within
  0.005 of the exact product; a win exits at exactly this rounded target; the recorded return
  is (exit - entry) / entry * 100 rounded to 2 decimal places, within 0.005 of the exact value.
\<close>

theorem recorded_prices_rounded:
  assumes "r \<in> set (run_backtest df th m)"
  shows "(\<exists>b \<in> set df. date b = entry_date r \<and>
            target_price r = py_round (entry_price r * (1 + (ma5 b - ma10 b) / ma10 b)) 2 \<and>
            \<bar>target_price r - entry_price r * (1 + (ma5 b - ma10 b) / ma10 b)\<bar> \<le> 1 / 200) \<and>
         (outcome r = Win \<longrightarrow> exit_price r = target_price r) \<and>
         return_pct r = py_round ((exit_price r - entry_price r) / entry_price r * 100) 2 \<and>
         \<bar>return_pct r - (exit_price r - entry_price r) / entry_price r * 100\<bar> \<le> 1 / 200"
proof -
  let ?sdf = "sort_key date df"
  from assms obtain idx e ep x xp oc mdd where
    "0 < idx" and ie: "idx < e" and ex: "e \<le> x" and x: "x < length df"
    and re: "resolve_entry (?sdf ! e) = Some ep"
    and fx: "find_exit ?sdf e ep
           (calculate_target_price ep (ma5 (?sdf ! e)) (ma10 (?sdf ! e))) = Some (x, xp, oc, mdd)"
    and r: "r = build_trade ?sdf idx e ep
               (py_round ((ma5 (?sdf ! e) - ma10 (?sdf ! e)) / ma10 (?sdf ! e) * 100) 2)
               (calculate_target_price ep (ma5 (?sdf ! e)) (ma10 (?sdf ! e))) x xp oc mdd"
    by (rule run_backtest_records)
  let ?b = "?sdf ! e"
  have "e < length ?sdf" using ex x by simp
  then have "?b \<in> set ?sdf" by (rule nth_mem)
  then have bmem: "?b \<in> set df" by simp
  have tg: "target_price r = py_round (entry_price r * (1 + (ma5 ?b - ma10 ?b) / ma10 ?b)) 2"
    using r by (simp add: build_trade_fields calculate_target_price_def Let_def)
  have tgerr: "\<bar>target_price r - entry_price r * (1 + (ma5 ?b - ma10 ?b) / ma10 ?b)\<bar> \<le> 1 / 200"
    unfolding tg using py_round_error[of "entry_price r * (1 + (ma5 ?b - ma10 ?b) / ma10 ?b)" 2]
    by simp
  have dt: "date ?b = entry_date r" using r by (simp add: build_trade_fields)
  have win: "exit_price r = target_price r" if "outcome r = Win"
  proof -
    from that r have "oc = Win" by (simp add: build_trade_fields)
    with fx have "xp = calculate_target_price ep (ma5 ?b) (ma10 ?b)"
      using find_exit_Win by blast
    with r show ?thesis by (simp add: build_trade_fields)
  qed
  have ret: "return_pct r = py_round ((exit_price r - entry_price r) / entry_price r * 100) 2"
    using r by (simp add: build_trade_fields calculate_return_def)
  have reterr: "\<bar>return_pct r - (exit_price r - entry_price r) / entry_price r * 100\<bar> \<le> 1 / 200"
    unfolding ret using py_round_error[of "(exit_price r - entry_price r) / entry_price r * 100" 2]
    by simp
  from bmem dt tg tgerr have ex1: "\<exists>b \<in> set df. date b = entry_date r \<and>
            target_price r = py_round (entry_price r * (1 + (ma5 b - ma10 b) / ma10 b)) 2 \<and>
            \<bar>target_price r - entry_price r * (1 + (ma5 b - ma10 b) / ma10 b)\<bar> \<le> 1 / 200"
    by (intro bexI[of _ ?b] conjI)
  from ex1 win ret reterr show ?thesis by (intro conjI impI)
qed

theorem recorded_prices_rounded_witness:
  "trade_win \<in> set (run_backtest series_win no_thresholds None) \<and>
   outcome trade_win = Win \<and> exit_price trade_win = target_price trade_win \<and>
   target_price trade_win = 10609 / 100 \<and>
   trade_loss \<in> set (run_backtest series_loss no_thresholds None) \<and>
   return_pct trade_loss = - (97 / 50) \<and>
   (exit_price trade_loss - entry_price trade_loss) / entry_price trade_loss * 100 = - (200 / 103) \<and>
   \<bar>return_pct trade_loss - (- (200 / 103))\<bar> \<le> 1 / 200"
proof -
  have m: "trade_win \<in> set (run_backtest series_win no_thresholds None)"
    by (simp add: run_series_win)
  have m2: "trade_loss \<in> set (run_backtest series_loss no_thresholds None)"
    by (simp add: run_series_loss)
  have w: "outcome trade_win = Win" by (simp add: trade_win_def)
  have e: "(exit_price trade_loss - entry_price trade_loss) / entry_price trade_loss * 100
             = - (200 / 103)"
    by (simp add: trade_loss_def)
  from recorded_prices_rounded[OF m] have "outcome trade_win = Win \<longrightarrow>
      exit_price trade_win = target_price trade_win"
    by (elim conjE)
  with w have 1: "exit_price trade_win = target_price trade_win"
    by (rule rev_mp)
  from recorded_prices_rounded[OF m2]
  have "\<bar>return_pct trade_loss
          - (exit_price trade_loss - entry_price trade_loss) / entry_price trade_loss * 100\<bar>
        \<le> 1 / 200"
    by (elim conjE)
  then have 2: "\<bar>return_pct trade_loss - (- (200 / 103))\<bar> \<le> 1 / 200"
    by (simp only: e)
  have 3: "target_price trade_win = 10609 / 100" "return_pct trade_loss = - (97 / 50)"
    by (simp_all add: trade_win_def trade_loss_def)
  from m m2 w e 1 2 3 show ?thesis by (intro conjI)
qed

subsection \<open>The re-arm gate\<close>

lemma trade_at_trigger_date:
  assumes "trade_at df th idx = Some r"
  shows "trigger_date r = date (df ! idx)"
proof -
  from assms obtain e ep x xp oc mdd where
    "is_trigger df th idx" and "find_entry df idx = Some (e, ep)"
    and "find_exit df e ep (calculate_target_price ep (ma5 (df ! e)) (ma10 (df ! e)))
           = Some (x, xp, oc, mdd)"
    and r: "r = build_trade df idx e ep
               (py_round ((ma5 (df ! e) - ma10 (df ! e)) / ma10 (df ! e) * 100) 2)
               (calculate_target_price ep (ma5 (df ! e)) (ma10 (df ! e))) x xp oc mdd"
    by (rule trade_at_Some)
  from r show ?thesis by (simp add: build_trade_fields)
qed

lemma gate_invariant_step:
  assumes mono: "\<And>i j. i < j \<Longrightarrow> j < length df \<Longrightarrow> date (df ! i) < date (df ! j)"
    and n: "n < length df"
    and inv: "gate_invariant df n (w, rs)"
  shows "gate_invariant df (Suc n) (step df th m (w, rs) n)"
proof -
  obtain w' rs' where st': "step df th m (w, rs) n = (w', rs')"
    by (cases "step df th m (w, rs) n")
  from inv have I1: "\<forall>r \<in> set rs. \<exists>t < n. trigger_date r = date (df ! t)"
    and I2: "sorted_wrt (\<lambda>r1 r2. ma20_dip_after_upto df (trigger_date r1) (trigger_date r2)) rs"
    and I3: "w \<or> rs = [] \<or> (\<exists>j < n. close_price (df ! j) < ma20 (df ! j) \<and>
         (\<forall>r \<in> set rs. trigger_date r < date (df ! j)))"
    by (simp_all add: gate_invariant_def)
  have before: "trigger_date r < date (df ! n)" if "r \<in> set rs" for r
  proof -
    from I1 that obtain t where "t < n" "trigger_date r = date (df ! t)" by blast
    with mono[OF \<open>t < n\<close> n] show ?thesis by simp
  qed
  have I1': "\<forall>r \<in> set rs. \<exists>t < Suc n. trigger_date r = date (df ! t)"
    using I1 less_Suc_eq by blast
  from step_cases[OF st']
  consider (same) "w' = w" "rs' = rs"
    | (cleared) "\<not> w'" "rs' = rs" "w \<longrightarrow> close_price (df ! n) < ma20 (df ! n)"
    | (traded) r where "trade_at df th n = Some r" "rs' = rs @ [r]" "w'"
        "w \<longrightarrow> close_price (df ! n) < ma20 (df ! n)"
    by blast
  then have "gate_invariant df (Suc n) (w', rs')"
  proof cases
    case same
    have "w \<or> rs = [] \<or> (\<exists>j < Suc n. close_price (df ! j) < ma20 (df ! j) \<and>
         (\<forall>r \<in> set rs. trigger_date r < date (df ! j)))"
      using I3 less_Suc_eq by blast
    with same I1' I2 show ?thesis by (simp add: gate_invariant_def)
  next
    case cleared
    have "rs = [] \<or> (\<exists>j < Suc n. close_price (df ! j) < ma20 (df ! j) \<and>
         (\<forall>r \<in> set rs. trigger_date r < date (df ! j)))"
    proof (cases w)
      case True
      with cleared(3) have "close_price (df ! n) < ma20 (df ! n)" by simp
      with before have "n < Suc n \<and> close_price (df ! n) < ma20 (df ! n) \<and>
         (\<forall>r \<in> set rs. trigger_date r < date (df ! n))" by simp
      then show ?thesis by blast
    next
      case False
      with I3 less_Suc_eq show ?thesis by blast
    qed
    with cleared I1' I2 show ?thesis by (simp add: gate_invariant_def)
  next
    case traded
    have td: "trigger_date r = date (df ! n)" by (rule trade_at_trigger_date[OF traded(1)])
    have nmem: "df ! n \<in> set df" using n by (rule nth_mem)
    have dip: "ma20_dip_after_upto df (trigger_date r0) (trigger_date r)" if r0: "r0 \<in> set rs" for r0
    proof (cases w)
      case True
      with traded(4) have "close_price (df ! n) < ma20 (df ! n)" by simp
      with before[OF r0] nmem td show ?thesis
        unfolding ma20_dip_after_upto_def by (intro bexI[of _ "df ! n"]) simp_all
    next
      case False
      with I3 r0 obtain j where j: "j < n" "close_price (df ! j) < ma20 (df ! j)"
        "\<forall>r \<in> set rs. trigger_date r < date (df ! j)" by auto
      from j(1) n have "df ! j \<in> set df" by simp
      moreover from mono[OF j(1) n] td have "date (df ! j) \<le> trigger_date r" by simp
      moreover from j(3) r0 have "trigger_date r0 < date (df ! j)" by blast
      ultimately show ?thesis using j(2)
        unfolding ma20_dip_after_upto_def by (intro bexI[of _ "df ! j"]) simp_all
    qed
    have J1: "\<forall>r' \<in> set (rs @ [r]). \<exists>t < Suc n. trigger_date r' = date (df ! t)"
      using I1' td by auto
    have J2: "sorted_wrt (\<lambda>r1 r2. ma20_dip_after_upto df (trigger_date r1) (trigger_date r2))
                (rs @ [r])"
      using I2 dip by (simp add: sorted_wrt_append)
    from J1 J2 traded show ?thesis by (simp add: gate_invariant_def)
  qed
  with st' show ?thesis by simp
qed

lemma gate_invariant_scan:
  assumes mono: "\<And>i j. i < j \<Longrightarrow> j < length df \<Longrightarrow> date (df ! i) < date (df ! j)"
  shows "n \<le> length df \<Longrightarrow> gate_invariant df n (scan df th m n)"
proof (induction n)
  case 0
  show ?case by (simp add: scan_def gate_invariant_def)
next
  case (Suc n)
  then have n: "n < length df" and ih: "gate_invariant df n (scan df th m n)" by simp_all
  obtain w rs where st: "scan df th m n = (w, rs)" by (cases "scan df th m n")
  from gate_invariant_step[OF mono n, of w rs th m] ih st show ?case
    by (simp add: scan_Suc)
qed

text \<open>
  C6 (as the source has it). On a series without duplicate dates, for any two trade records
  of one pass, the earlier first: some bar dated after the earlier record's trigger date and no
  later than the later record's trigger date has its close below its MA20. The bar that
  clears the gate is itself tested as a trigger, so the dip may be the later trigger bar. This
  holds whether or not the two windows overlap.
\<close>

theorem rearm_gate_needs_dip:
  assumes "distinct (map date df)" and "i < j" and "j < length (run_backtest df th m)"
  shows "ma20_dip_after_upto df (trigger_date (run_backtest df th m ! i))
           (trigger_date (run_backtest df th m ! j))"
proof -
  let ?sdf = "sort_key date df"
  have mono: "\<And>a b. a < b \<Longrightarrow> b < length ?sdf \<Longrightarrow> date (?sdf ! a) < date (?sdf ! b)"
    using dates_strictly_increasing[OF assms(1)] by simp
  have "gate_invariant ?sdf (length ?sdf) (scan ?sdf th m (length ?sdf))"
    by (rule gate_invariant_scan[OF mono]) simp_all
  then have "sorted_wrt (\<lambda>r1 r2. ma20_dip_after_upto ?sdf (trigger_date r1) (trigger_date r2))
               (run_backtest df th m)"
    by (simp add: gate_invariant_def run_backtest_def Let_def)
  from sorted_wrt_nth_less[OF this assms(2,3)]
  show ?thesis by (simp add: ma20_dip_after_upto_def)
qed

theorem rearm_gate_needs_dip_witness:
  "distinct (map date series_overlap) \<and> (0::nat) < 1 \<and>
   1 < length (run_backtest series_overlap no_thresholds None) \<and>
   trigger_date (run_backtest series_overlap no_thresholds None ! 0) = 2 \<and>
   trigger_date (run_backtest series_overlap no_thresholds None ! 1) = 3 \<and>
   ma20_dip_after_upto series_overlap 2 3"
proof -
  have d: "distinct (map date series_overlap)"
    by (simp add: series_overlap_def example_bar_def)
  have l: "1 < length (run_backtest series_overlap no_thresholds None)"
    by (simp add: run_series_overlap)
  have t: "trigger_date (run_backtest series_overlap no_thresholds None ! 0) = 2"
    "trigger_date (run_backtest series_overlap no_thresholds None ! 1) = 3"
    by (simp_all add: run_series_overlap trade_overlap_def)
  from rearm_gate_needs_dip[OF d _ l, of 0] t
  have "ma20_dip_after_upto series_overlap 2 3" by simp
  with d l t show ?thesis by simp
qed

text \<open>
  C6 as stated fails: the triggers of days 2 and 3 both yield a record, the windows [2, 5]
  and [3, 5] overlap, and no bar lies strictly between the two trigger dates. The dip is
  the bar of day 3, the second trigger bar itself.
\<close>

theorem rearm_gate_dip_counterexample:
  "run_backtest series_overlap no_thresholds None = [trade_overlap 2, trade_overlap 3] \<and>
   windows_overlap (trade_overlap 2) (trade_overlap 3) \<and>
   \<not> ma20_dip_strictly_between series_overlap
        (trigger_date (trade_overlap 2)) (trigger_date (trade_overlap 3))"
  by (simp add: run_series_overlap)
     (simp add: windows_overlap_def ma20_dip_strictly_between_def trade_overlap_def
        series_overlap_def example_bar_def)

text \<open>
  C5. On \<open>series_overlap\<close> the first record has its trigger on day 2 and its exit on
  day 5. The scan does not resume from the exit bar: the bar of day 3, between the trigger
  bar and the exit bar, is tested as a trigger again and yields a second record, with the
  same entry (day 4) and the same exit (day 5) as the first.
\<close>

theorem trigger_inside_open_trade:
  "run_backtest series_overlap no_thresholds None = [trade_overlap 2, trade_overlap 3] \<and>
   trigger_date (trade_overlap 2) < trigger_date (trade_overlap 3) \<and>
   trigger_date (trade_overlap 3) < exit_date (trade_overlap 2) \<and>
   entry_date (trade_overlap 3) = entry_date (trade_overlap 2) \<and>
   exit_date (trade_overlap 3) = exit_date (trade_overlap 2)"
  by (simp add: run_series_overlap) (simp add: trade_overlap_def)

lemma step_gate_closed:
  assumes "\<not> close_price (df ! idx) < ma20 (df ! idx)"
  shows "step df th m (True, rs) idx = (True, rs)"
  using assms by (simp add: step_def Let_def)

lemma scan_gate_stays_closed:
  assumes "scan df th m k = (True, rs)"
    and "\<forall>j. k \<le> j \<and> j < n \<longrightarrow> \<not> close_price (df ! j) < ma20 (df ! j)"
    and "k \<le> n"
  shows "scan df th m n = (True, rs)"
  using assms(3,2)
proof (induction n rule: dec_induct)
  case base
  show ?case by (rule assms(1))
next
  case (step n)
  then have "scan df th m n = (True, rs)" by simp
  moreover from step have "\<not> close_price (df ! n) < ma20 (df ! n)" by simp
  ultimately show ?case by (simp add: scan_Suc step_gate_closed)
qed

text \<open>
  What the source does after a trade: when the iteration for bar \<open>t\<close> appends a record, the
  loop goes on with the bar after \<open>t\<close> with the gate set. As long as no bar after \<open>t\<close>
  closes below its MA20, the gate stays set and the result list is unchanged.
\<close>

lemma scan_gated_after_trade:
  assumes "scan df th m t = (w0, rs)" and "scan df th m (Suc t) = (w, rs @ [r])"
    and "\<forall>j. t < j \<and> j < n \<longrightarrow> \<not> close_price (df ! j) < ma20 (df ! j)"
    and "t < n"
  shows "scan df th m n = (True, rs @ [r])"
proof -
  from assms(1,2) have "step df th m (w0, rs) t = (w, rs @ [r])" by (simp add: scan_Suc)
  from step_cases[OF this] have w by auto
  with assms(2) have "scan df th m (Suc t) = (True, rs @ [r])" by simp
  moreover from assms(3)
  have "\<forall>j. Suc t \<le> j \<and> j < n \<longrightarrow> \<not> close_price (df ! j) < ma20 (df ! j)" by simp
  moreover from assms(4) have "Suc t \<le> n" by simp
  ultimately show ?thesis by (rule scan_gate_stays_closed)
qed

lemma scan_series_win:
  "scan series_win no_thresholds None (Suc 0) = (False, [])"
  "scan series_win no_thresholds None (Suc (Suc 0)) = (True, [trade_win])"
  by (simp_all add: engine_defs series_win_def trade_win_def)

lemma scan_gated_after_trade_example:
  "scan series_win no_thresholds None (Suc 0) = (False, []) \<and>
   scan series_win no_thresholds None (Suc (Suc 0)) = (True, [] @ [trade_win]) \<and>
   \<not> close_price (series_win ! 2) < ma20 (series_win ! 2) \<and>
   \<not> close_price (series_win ! 3) < ma20 (series_win ! 3) \<and>
   Suc 0 < 4 \<and>
   scan series_win no_thresholds None 4 = (True, [trade_win])"
proof -
  have a: "scan series_win no_thresholds None (Suc 0) = (False, [])"
    and b: "scan series_win no_thresholds None (Suc (Suc 0)) = (True, [] @ [trade_win])"
    by (simp_all add: scan_series_win)
  have c2: "\<not> close_price (series_win ! 2) < ma20 (series_win ! 2)"
    and c3: "\<not> close_price (series_win ! 3) < ma20 (series_win ! 3)"
    by (simp_all add: series_win_def example_bar_def)
  have c: "\<forall>j. Suc 0 < j \<and> j < 4 \<longrightarrow> \<not> close_price (series_win ! j) < ma20 (series_win ! j)"
  proof (intro allI impI)
    fix j :: nat assume "Suc 0 < j \<and> j < 4"
    then have "j = 2 \<or> j = 3" by arith
    with c2 c3 show "\<not> close_price (series_win ! j) < ma20 (series_win ! j)" by blast
  qed
  have "scan series_win no_thresholds None 4 = (True, [] @ [trade_win])"
    by (rule scan_gated_after_trade[OF a b c]) simp
  with a b c2 c3 show ?thesis by simp
qed

subsection \<open>The daily summary\<close>

lemmas summary_defs =
  generate_daily_summary_def generate_daily_summary_gui_def with_total_and_average_def
  grouped_stats_def exit_counts_def round_cells_def held_counts_loop_def min_date_def
  max_date_def nan_mean_def nan_sum_def present_def py_round_def rint_def Let_def

lemma daily_summary_index:
  assumes "df \<noteq> []"
  shows "\<exists>t. generate_daily_summary df = Inr t \<and>
           map fst t = map Day (sort (remdups (map entry_date df))) @ [Total_row, Average_row]"
  using assms
  by (simp add: generate_daily_summary_def with_total_and_average_def Let_def comp_def)

lemma daily_summary_gui_index:
  assumes "df \<noteq> []"
  shows "\<exists>t. generate_daily_summary_gui df = Inr t \<and>
           map fst t =
             map Day [min_date (map entry_date df)..max_date (map exit_date df)]
             @ [Total_row, Average_row]"
  using assms
  by (simp add: generate_daily_summary_gui_def with_total_and_average_def Let_def comp_def)

text \<open>
  C7. For one trade entered on day 3 and exited on day 5, the daily summary of
  core/backtest_runner_MA5.py has the rows of day 3, Total and Average only: days 4 and 5 of
  the calendar span are missing. The summary tool's version of the same function has one
  row per calendar day from day 3 to day 5, then Total and Average.
\<close>

theorem daily_summary_not_reindexed:
  "generate_daily_summary [trade_held] =
     Inr [(Day 3, [Some 3, Some 1, Some (97 / 25), Some (- (97 / 100)), Some 3, Some 1,
                   Some 1, Some 1, Some 0, Some 1]),
          (Total_row, [Some 3, Some 1, Some (97 / 25), Some (- (97 / 100)), Some 3, Some 1,
                   Some 1, Some 1, Some 0, Some 1]),
          (Average_row, [Some 3, Some 1, Some (97 / 25), Some (- (97 / 100)), Some 3, Some 1,
                   Some 1, Some 1, Some 0, Some 1])] \<and>
   map_sum id (map fst) (generate_daily_summary_gui [trade_held])
     = Inr [Day 3, Day 4, Day 5, Total_row, Average_row]"
  by (simp add: summary_defs trade_held_def trade_win_def upto.simps upt_rec_numeral
        eval_nat_numeral)

end
